theory Spec2Isabelle
  imports Complex_Main
begin

section \<open>Data model of \<open>gauss_bot/clases/matriz.py\<close>\<close>

text \<open>
  A \<open>Matriz\<close> object holds the augmented flag, the two dimensions (Python ints) and the
  grid of \<open>Fraction\<close> values, rows outer. The constructor stores a supplied grid as it is,
  so the record does not force the grid to agree with the dimensions. The rows of a grid
  are taken to be separate list objects, as the constructor's own zero grid and every
  grid built by the class's operations are.
\<close>

datatype py_error = IndexError | ArithmeticError | TypeError | ZeroDivisionError | ValueError

record Matriz =
  aumentada :: bool
  filas :: int
  columnas :: int
  valores :: "rat list list"

text \<open>The values a method of the class can be handed where it inspects the type at run time.\<close>

datatype py_object = ObjMatriz Matriz | ObjFraction rat | ObjOtro

text \<open>
  The invariant of the data model: the grid has exactly \<open>filas\<close> rows, each of exactly
  \<open>columnas\<close> entries (both are sizes, so neither is negative).
\<close>

definition bien_formada :: "Matriz \<Rightarrow> bool" where
  "bien_formada A \<longleftrightarrow>
     filas A = int (length (valores A)) \<and> 0 \<le> columnas A \<and>
     (\<forall>fila \<in> set (valores A). int (length fila) = columnas A)"

subsection \<open>Python list indexing\<close>

text \<open>
  \<open>xs[i]\<close> on a Python list of length \<open>n\<close>: defined for \<open>-n \<le> i < n\<close>, where a negative
  \<open>i\<close> reads position \<open>i + n\<close>; any other index raises IndexError.
\<close>

definition py_index :: "'a list \<Rightarrow> int \<Rightarrow> py_error + 'a" where
  "py_index xs i =
     (if - int (length xs) \<le> i \<and> i < int (length xs)
      then Inr (xs ! nat (if i < 0 then i + int (length xs) else i))
      else Inl IndexError)"

text \<open>The assignment \<open>xs[i] = v\<close> follows the same index rule.\<close>

definition py_setitem :: "'a list \<Rightarrow> int \<Rightarrow> 'a \<Rightarrow> py_error + 'a list" where
  "py_setitem xs i v =
     (if - int (length xs) \<le> i \<and> i < int (length xs)
      then Inr (xs[nat (if i < 0 then i + int (length xs) else i) := v])
      else Inl IndexError)"

text \<open>\<open>m[f][c]\<close> on a grid.\<close>

definition elem :: "'a list list \<Rightarrow> int \<Rightarrow> int \<Rightarrow> py_error + 'a" where
  "elem m f c = (case py_index m f of Inl e \<Rightarrow> Inl e | Inr fila \<Rightarrow> py_index fila c)"

subsection \<open>\<open>__eq__\<close>, \<open>__add__\<close>, \<open>__sub__\<close>\<close>

text \<open>
  \<open>__eq__\<close> answers False for an operand that is not a \<open>Matriz\<close> and for different
  dimensions, and otherwise compares the entries that the two nested \<open>zip\<close>s pair up.
\<close>

definition valores_iguales :: "rat list list \<Rightarrow> rat list list \<Rightarrow> bool" where
  "valores_iguales v1 v2 =
     list_all (\<lambda>(fila1, fila2). list_all (\<lambda>(a, b). a = b) (zip fila1 fila2)) (zip v1 v2)"

fun Matriz_eq :: "Matriz \<Rightarrow> py_object \<Rightarrow> bool" where
  "Matriz_eq A (ObjMatriz mat2) =
     (if filas A \<noteq> filas mat2 \<or> columnas A \<noteq> columnas mat2 then False
      else valores_iguales (valores A) (valores mat2))"
| "Matriz_eq A _ = False"



subsection \<open>Grid assignment and comprehensions\<close>

text \<open>The assignment \<open>m[f][c] = v\<close> on a grid: the row object is fetched, then written.\<close>

definition asignar :: "'a list list \<Rightarrow> int \<Rightarrow> int \<Rightarrow> 'a \<Rightarrow> py_error + 'a list list" where
  "asignar m f c v =
     (case py_index m f of Inl e \<Rightarrow> Inl e
      | Inr fila \<Rightarrow> (case py_setitem fila c v of Inl e \<Rightarrow> Inl e
          | Inr fila' \<Rightarrow> py_setitem m f fila'))"

text \<open>A list comprehension whose element expression may raise.\<close>

fun comprension :: "('a \<Rightarrow> py_error + 'b) \<Rightarrow> 'a list \<Rightarrow> py_error + 'b list" where
  "comprension g [] = Inr []"
| "comprension g (x # xs) =
     (case g x of Inl e \<Rightarrow> Inl e
      | Inr y \<Rightarrow> (case comprension g xs of Inl e \<Rightarrow> Inl e | Inr ys \<Rightarrow> Inr (y # ys)))"

subsection \<open>\<open>__getitem__\<close> and \<open>__setitem__\<close>\<close>

text \<open>
  \<open>__getitem__\<close> takes an int (a row) or a tuple of two ints (an element); anything else
  is a TypeError. The int branch tests \<open>indice < 0 or indice >= filas\<close>; the tuple branch
  tests only \<open>fila >= filas or columna >= columnas\<close> before indexing the lists.
\<close>

datatype indice = IndiceEntero int | IndiceTupla "int list" | IndiceOtro

datatype item = Fila "rat list" | Elemento rat

fun Matriz_getitem :: "Matriz \<Rightarrow> indice \<Rightarrow> py_error + item" where
  "Matriz_getitem A (IndiceEntero i) =
     (if i < 0 \<or> i \<ge> filas A then Inl IndexError
      else (case py_index (valores A) i of Inl e \<Rightarrow> Inl e | Inr fila \<Rightarrow> Inr (Fila fila)))"
| "Matriz_getitem A (IndiceTupla [fila, columna]) =
     (if fila \<ge> filas A \<or> columna \<ge> columnas A then Inl IndexError
      else (case elem (valores A) fila columna of Inl e \<Rightarrow> Inl e | Inr v \<Rightarrow> Inr (Elemento v)))"
| "Matriz_getitem A _ = Inl TypeError"

fun Matriz_setitem :: "Matriz \<Rightarrow> int \<times> int \<Rightarrow> rat \<Rightarrow> py_error + Matriz" where
  "Matriz_setitem A (fila, columna) valor =
     (if fila < 0 \<or> columna < 0 \<or> fila \<ge> filas A \<or> columna \<ge> columnas A then Inl IndexError
      else (case asignar (valores A) fila columna valor of Inl e \<Rightarrow> Inl e
            | Inr m \<Rightarrow> Inr (A\<lparr>valores := m\<rparr>)))"

subsection \<open>\<open>__mul__\<close>\<close>

text \<open>
  The three nested loops of the matrix product, innermost first; each
  \<open>mat_multiplicada[i][j] += a[i][k] * b[k][j]\<close> reads the accumulator, reads both
  factors and writes the accumulator back.
\<close>

fun mul_k :: "rat list list \<Rightarrow> rat list list \<Rightarrow> rat list list \<Rightarrow> nat \<Rightarrow> nat \<Rightarrow> nat list
                \<Rightarrow> py_error + rat list list" where
  "mul_k res a b i j [] = Inr res"
| "mul_k res a b i j (k # ks) =
     (case elem res (int i) (int j) of Inl e \<Rightarrow> Inl e | Inr acc \<Rightarrow>
      case elem a (int i) (int k) of Inl e \<Rightarrow> Inl e | Inr x \<Rightarrow>
      case elem b (int k) (int j) of Inl e \<Rightarrow> Inl e | Inr y \<Rightarrow>
      case asignar res (int i) (int j) (acc + x * y) of Inl e \<Rightarrow> Inl e
      | Inr res' \<Rightarrow> mul_k res' a b i j ks)"

fun mul_j :: "rat list list \<Rightarrow> rat list list \<Rightarrow> rat list list \<Rightarrow> nat \<Rightarrow> nat \<Rightarrow> nat list
                \<Rightarrow> py_error + rat list list" where
  "mul_j res a b i ca [] = Inr res"
| "mul_j res a b i ca (j # js) =
     (case mul_k res a b i j [0..<ca] of Inl e \<Rightarrow> Inl e
      | Inr res' \<Rightarrow> mul_j res' a b i ca js)"

fun mul_i :: "rat list list \<Rightarrow> rat list list \<Rightarrow> rat list list \<Rightarrow> nat \<Rightarrow> nat \<Rightarrow> nat list
                \<Rightarrow> py_error + rat list list" where
  "mul_i res a b cb ca [] = Inr res"
| "mul_i res a b cb ca (i # is) =
     (case mul_j res a b i ca [0..<cb] of Inl e \<Rightarrow> Inl e
      | Inr res' \<Rightarrow> mul_i res' a b cb ca is)"

fun Matriz_mul :: "Matriz \<Rightarrow> py_object \<Rightarrow> py_error + Matriz" where
  "Matriz_mul A (ObjMatriz multiplicador) =
     (if columnas A \<noteq> filas multiplicador then Inl ArithmeticError
      else (case mul_i (replicate (nat (filas A)) (replicate (nat (columnas multiplicador)) 0))
                   (valores A) (valores multiplicador)
                   (nat (columnas multiplicador)) (nat (columnas A)) [0..<nat (filas A)] of
              Inl e \<Rightarrow> Inl e
            | Inr res \<Rightarrow> Inr \<lparr>aumentada = aumentada A, filas = filas A,
                              columnas = columnas multiplicador, valores = res\<rparr>))"
| "Matriz_mul A (ObjFraction multiplicador) =
     Inr \<lparr>aumentada = aumentada A, filas = filas A, columnas = columnas A,
          valores = map (map (\<lambda>valor. multiplicador * valor)) (valores A)\<rparr>"
| "Matriz_mul A ObjOtro = Inl TypeError"

subsection \<open>Predicates\<close>

definition es_cuadrada :: "Matriz \<Rightarrow> bool" where
  "es_cuadrada A \<longleftrightarrow> filas A = columnas A"

text \<open>
  \<open>es_identidad\<close> evaluates both \<open>all(...)\<close> generators, in this order, before it looks at
  \<open>es_cuadrada()\<close>; \<open>all\<close> stops at the first false element.
\<close>

fun todos_diagonal :: "rat list list \<Rightarrow> nat list \<Rightarrow> py_error + bool" where
  "todos_diagonal m [] = Inr True"
| "todos_diagonal m (i # is) =
     (case elem m (int i) (int i) of Inl e \<Rightarrow> Inl e
      | Inr v \<Rightarrow> if v = 1 then todos_diagonal m is else Inr False)"

fun todos_resto :: "rat list list \<Rightarrow> (nat \<times> nat) list \<Rightarrow> py_error + bool" where
  "todos_resto m [] = Inr True"
| "todos_resto m ((i, j) # ps) =
     (if i \<noteq> j
      then (case elem m (int i) (int j) of Inl e \<Rightarrow> Inl e
            | Inr v \<Rightarrow> if v = 0 then todos_resto m ps else Inr False)
      else todos_resto m ps)"

definition es_identidad :: "Matriz \<Rightarrow> py_error + bool" where
  "es_identidad A =
     (case todos_diagonal (valores A) [0..<nat (filas A)] of Inl e \<Rightarrow> Inl e
      | Inr diagonales_son_1 \<Rightarrow>
     (case todos_resto (valores A)
             (List.product [0..<nat (filas A)] [0..<nat (columnas A)]) of Inl e \<Rightarrow> Inl e
      | Inr resto_son_cero \<Rightarrow> Inr (es_cuadrada A \<and> diagonales_son_1 \<and> resto_son_cero)))"

subsection \<open>\<open>transponer\<close>\<close>

definition transponer :: "Matriz \<Rightarrow> py_error + Matriz" where
  "transponer A =
     (case comprension
             (\<lambda>i. comprension (\<lambda>j. elem (valores A) (int j) (int i)) [0..<nat (filas A)])
             [0..<nat (columnas A)] of
        Inl e \<Rightarrow> Inl e
      | Inr mat_transpuesta \<Rightarrow>
          Inr \<lparr>aumentada = aumentada A, filas = columnas A, columnas = filas A,
               valores = mat_transpuesta\<rparr>)"

subsection \<open>\<open>hacer_triangular_superior\<close>\<close>

text \<open>
  \<open>max(range(i, filas), key=...)\<close>: the key \<open>abs(mat_triangular[j][i])\<close> is computed for
  every candidate, the first one included, and a later candidate replaces the current
  one only when its key is strictly greater.
\<close>

fun max_fila_loop :: "rat list list \<Rightarrow> nat \<Rightarrow> nat \<Rightarrow> rat \<Rightarrow> nat list \<Rightarrow> py_error + nat" where
  "max_fila_loop m i mejor clave [] = Inr mejor"
| "max_fila_loop m i mejor clave (j # js) =
     (case elem m (int j) (int i) of Inl e \<Rightarrow> Inl e
      | Inr v \<Rightarrow> if abs v > clave then max_fila_loop m i j (abs v) js
                 else max_fila_loop m i mejor clave js)"

definition max_fila :: "rat list list \<Rightarrow> nat \<Rightarrow> nat \<Rightarrow> py_error + nat" where
  "max_fila m i n =
     (if n \<le> i then Inl ValueError
      else (case elem m (int i) (int i) of Inl e \<Rightarrow> Inl e
            | Inr v \<Rightarrow> max_fila_loop m i i (abs v) [Suc i..<n]))"

text \<open>\<open>m[i], m[max_f] = m[max_f], m[i]\<close>: both reads, then both writes.\<close>

definition intercambiar_filas :: "'a list \<Rightarrow> int \<Rightarrow> int \<Rightarrow> py_error + 'a list" where
  "intercambiar_filas m i max_f =
     (case py_index m max_f of Inl e \<Rightarrow> Inl e | Inr a \<Rightarrow>
      case py_index m i of Inl e \<Rightarrow> Inl e | Inr b \<Rightarrow>
      case py_setitem m i a of Inl e \<Rightarrow> Inl e | Inr m1 \<Rightarrow> py_setitem m1 max_f b)"

text \<open>The loop over \<open>k\<close>: \<open>mat_triangular[j][k] -= factor * mat_triangular[i][k]\<close>.\<close>

fun restar_fila :: "rat list list \<Rightarrow> nat \<Rightarrow> nat \<Rightarrow> rat \<Rightarrow> nat list \<Rightarrow> py_error + rat list list" where
  "restar_fila m i j factor [] = Inr m"
| "restar_fila m i j factor (k # ks) =
     (case elem m (int j) (int k) of Inl e \<Rightarrow> Inl e | Inr a \<Rightarrow>
      case elem m (int i) (int k) of Inl e \<Rightarrow> Inl e | Inr b \<Rightarrow>
      case asignar m (int j) (int k) (a - factor * b) of Inl e \<Rightarrow> Inl e
      | Inr m' \<Rightarrow> restar_fila m' i j factor ks)"

text \<open>The loop over \<open>j\<close>; dividing a \<open>Fraction\<close> by zero raises ZeroDivisionError.\<close>

fun eliminar_filas :: "rat list list \<Rightarrow> nat \<Rightarrow> nat \<Rightarrow> nat list \<Rightarrow> py_error + rat list list" where
  "eliminar_filas m i c [] = Inr m"
| "eliminar_filas m i c (j # js) =
     (case elem m (int j) (int i) of Inl e \<Rightarrow> Inl e | Inr a \<Rightarrow>
      case elem m (int i) (int i) of Inl e \<Rightarrow> Inl e | Inr d \<Rightarrow>
      if d = 0 then Inl ZeroDivisionError
      else (case restar_fila m i j (a / d) [0..<c] of Inl e \<Rightarrow> Inl e
            | Inr m' \<Rightarrow> eliminar_filas m' i c js))"

text \<open>
  One iteration of the loop over \<open>i\<close>, on the pair of \<open>mat_triangular\<close> and \<open>intercambio\<close>;
  \<open>n\<close> is \<open>filas\<close> and \<open>c\<close> is \<open>columnas\<close>.
\<close>

fun paso_triangular :: "nat \<Rightarrow> nat \<Rightarrow> rat list list \<times> bool \<Rightarrow> nat
                          \<Rightarrow> py_error + rat list list \<times> bool" where
  "paso_triangular n c (m, intercambio) i =
     (case max_fila m i n of Inl e \<Rightarrow> Inl e | Inr max_f \<Rightarrow>
      case elem m (int max_f) (int i) of Inl e \<Rightarrow> Inl e | Inr p \<Rightarrow>
      if p = 0 then Inr (m, intercambio)
      else (case (if max_f \<noteq> i
                  then (case intercambiar_filas m (int i) (int max_f) of Inl e \<Rightarrow> Inl e
                        | Inr m1 \<Rightarrow> Inr (m1, \<not> intercambio))
                  else Inr (m, intercambio)) of Inl e \<Rightarrow> Inl e
            | Inr (m1, intercambio1) \<Rightarrow>
                (case eliminar_filas m1 i c [Suc i..<n] of Inl e \<Rightarrow> Inl e
                 | Inr m2 \<Rightarrow> Inr (m2, intercambio1))))"

fun triangular_loop :: "nat \<Rightarrow> nat \<Rightarrow> rat list list \<times> bool \<Rightarrow> nat list
                          \<Rightarrow> py_error + rat list list \<times> bool" where
  "triangular_loop n c s [] = Inr s"
| "triangular_loop n c s (i # is) =
     (case paso_triangular n c s i of Inl e \<Rightarrow> Inl e
      | Inr s' \<Rightarrow> triangular_loop n c s' is)"

definition hacer_triangular_superior :: "Matriz \<Rightarrow> py_error + Matriz \<times> bool" where
  "hacer_triangular_superior A =
     (case triangular_loop (nat (filas A)) (nat (columnas A)) (valores A, False)
             [0..<nat (filas A)] of
        Inl e \<Rightarrow> Inl e
      | Inr (mat_triangular, intercambio) \<Rightarrow>
          Inr (\<lparr>aumentada = aumentada A, filas = filas A, columnas = columnas A,
                valores = mat_triangular\<rparr>, intercambio))"

text \<open>
  The same loop with a history variable that the source does not have: the list of the
  row interchanges \<open>(i, max_f)\<close> performed so far, in order. It is there to state what
  \<open>intercambio\<close> counts.
\<close>

fun paso_traza :: "nat \<Rightarrow> nat \<Rightarrow> rat list list \<times> bool \<times> (nat \<times> nat) list \<Rightarrow> nat
                     \<Rightarrow> py_error + rat list list \<times> bool \<times> (nat \<times> nat) list" where
  "paso_traza n c (m, intercambio, tr) i =
     (case max_fila m i n of Inl e \<Rightarrow> Inl e | Inr max_f \<Rightarrow>
      case elem m (int max_f) (int i) of Inl e \<Rightarrow> Inl e | Inr p \<Rightarrow>
      if p = 0 then Inr (m, intercambio, tr)
      else (case (if max_f \<noteq> i
                  then (case intercambiar_filas m (int i) (int max_f) of Inl e \<Rightarrow> Inl e
                        | Inr m1 \<Rightarrow> Inr (m1, \<not> intercambio, tr @ [(i, max_f)]))
                  else Inr (m, intercambio, tr)) of Inl e \<Rightarrow> Inl e
            | Inr (m1, intercambio1, tr1) \<Rightarrow>
                (case eliminar_filas m1 i c [Suc i..<n] of Inl e \<Rightarrow> Inl e
                 | Inr m2 \<Rightarrow> Inr (m2, intercambio1, tr1))))"

fun traza_loop :: "nat \<Rightarrow> nat \<Rightarrow> rat list list \<times> bool \<times> (nat \<times> nat) list \<Rightarrow> nat list
                     \<Rightarrow> py_error + rat list list \<times> bool \<times> (nat \<times> nat) list" where
  "traza_loop n c s [] = Inr s"
| "traza_loop n c s (i # is) =
     (case paso_traza n c s i of Inl e \<Rightarrow> Inl e
      | Inr s' \<Rightarrow> traza_loop n c s' is)"

definition hacer_triangular_superior_traza ::
    "Matriz \<Rightarrow> py_error + Matriz \<times> bool \<times> (nat \<times> nat) list" where
  "hacer_triangular_superior_traza A =
     (case traza_loop (nat (filas A)) (nat (columnas A)) (valores A, False, [])
             [0..<nat (filas A)] of
        Inl e \<Rightarrow> Inl e
      | Inr (mat_triangular, intercambio, tr) \<Rightarrow>
          Inr (\<lparr>aumentada = aumentada A, filas = filas A, columnas = columnas A,
                valores = mat_triangular\<rparr>, intercambio, tr))"

text \<open>Forgetting the history variable.\<close>

definition sin_traza :: "py_error + 'a \<times> bool \<times> (nat \<times> nat) list \<Rightarrow> py_error + 'a \<times> bool" where
  "sin_traza r = (case r of Inl e \<Rightarrow> Inl e | Inr (x, intercambio, tr) \<Rightarrow> Inr (x, intercambio))"

subsection \<open>Notions used to state the properties\<close>

text \<open>The shape of a grid: \<open>n\<close> rows of \<open>c\<close> entries each.\<close>

definition forma :: "nat \<Rightarrow> nat \<Rightarrow> 'a list list \<Rightarrow> bool" where
  "forma n c m \<longleftrightarrow> length m = n \<and> (\<forall>fila \<in> set m. length fila = c)"

text \<open>
  Columns \<open>0 .. i-1\<close> of a grid with \<open>n\<close> rows are zero below the main diagonal: the state
  the elimination has reached before it treats column \<open>i\<close>.
\<close>

definition triangular_hasta :: "nat \<Rightarrow> nat \<Rightarrow> rat list list \<Rightarrow> bool" where
  "triangular_hasta n i m \<longleftrightarrow> (\<forall>q < i. \<forall>r < n. q < r \<longrightarrow> m ! r ! q = 0)"

text \<open>
  The product of the main diagonal of a grid, which a determinant routine multiplies by
  the sign of the interchanges, and the determinant of a 2 x 2 grid by its formula.
\<close>

definition producto_diagonal :: "rat list list \<Rightarrow> rat" where
  "producto_diagonal m = prod_list (map (\<lambda>i. m ! i ! i) [0..<length m])"

definition det2 :: "rat list list \<Rightarrow> rat" where
  "det2 m = m ! 0 ! 0 * m ! 1 ! 1 - m ! 0 ! 1 * m ! 1 ! 0"

subsection \<open>Concrete matrices\<close>

definition mat_ejemplo :: Matriz where
  "mat_ejemplo = \<lparr>aumentada = False, filas = 2, columnas = 2, valores = [[1, 2], [3, 4]]\<rparr>"

definition mat_ejemplo_b :: Matriz where
  "mat_ejemplo_b = \<lparr>aumentada = True, filas = 2, columnas = 2, valores = [[1, 2], [3, 5]]\<rparr>"



definition mat_alta :: Matriz where
  "mat_alta = \<lparr>aumentada = False, filas = 2, columnas = 1, valores = [[1], [0]]\<rparr>"

section \<open>Indexing with loop variables\<close>

lemma py_index_int:
  "py_index xs (int i) = (if i < length xs then Inr (xs ! i) else Inl IndexError)"
  by (simp add: py_index_def)

lemma py_setitem_int:
  "py_setitem xs (int i) v = (if i < length xs then Inr (xs[i := v]) else Inl IndexError)"
  by (simp add: py_setitem_def)

lemma elem_int:
  "elem m (int f) (int k) =
     (if f < length m \<and> k < length (m ! f) then Inr (m ! f ! k) else Inl IndexError)"
  by (simp add: elem_def py_index_int)

lemma asignar_int:
  "asignar m (int f) (int k) v =
     (if f < length m \<and> k < length (m ! f) then Inr (m[f := (m ! f)[k := v]])
      else Inl IndexError)"
  by (simp add: asignar_def py_index_int py_setitem_int)

lemma bien_formada_forma:
  "bien_formada A \<Longrightarrow> forma (nat (filas A)) (nat (columnas A)) (valores A)"
  by (auto simp: bien_formada_def forma_def)

lemma bien_formada_length: "bien_formada A \<Longrightarrow> length (valores A) = nat (filas A)"
  by (simp add: bien_formada_def)

lemma forma_nth: "forma n c m \<Longrightarrow> f < n \<Longrightarrow> length (m ! f) = c"
  by (simp add: forma_def)

lemma forma_length: "forma n c m \<Longrightarrow> length m = n"
  by (simp add: forma_def)

lemma formaI: "length m = n \<Longrightarrow> (\<And>f. f < n \<Longrightarrow> length (m ! f) = c) \<Longrightarrow> forma n c m"
  by (auto simp: forma_def in_set_conv_nth)

section \<open>Equality\<close>

lemma fila_igual_refl: "list_all (\<lambda>(a, b). a = b) (zip xs xs)"
  by (induction xs) auto

lemma valores_iguales_refl: "valores_iguales v v"
  unfolding valores_iguales_def by (induction v) (auto simp: fila_igual_refl)

lemma fila_igual_iff:
  "length xs = length ys \<Longrightarrow> list_all (\<lambda>(a, b). a = b) (zip xs ys) \<longleftrightarrow> xs = ys"
  by (induction xs ys rule: list_induct2) auto

lemma valores_iguales_iff:
  assumes "length v1 = length v2"
    and "\<forall>f \<in> set v1. length f = c" and "\<forall>f \<in> set v2. length f = c"
  shows "valores_iguales v1 v2 \<longleftrightarrow> v1 = v2"
  using assms unfolding valores_iguales_def
  by (induction v1 v2 rule: list_induct2) (auto simp: fila_igual_iff)

lemma grid_eq_iff:
  assumes "length v1 = n" "length v2 = n"
    and "\<forall>f \<in> set v1. length f = c" and "\<forall>f \<in> set v2. length f = c"
  shows "v1 = v2 \<longleftrightarrow> (\<forall>i<n. \<forall>j<c. v1 ! i ! j = v2 ! i ! j)"
proof
  assume "v1 = v2" then show "\<forall>i<n. \<forall>j<c. v1 ! i ! j = v2 ! i ! j" by simp
next
  assume H: "\<forall>i<n. \<forall>j<c. v1 ! i ! j = v2 ! i ! j"
  show "v1 = v2"
  proof (rule nth_equalityI)
    show "length v1 = length v2" using assms by simp
  next
    fix i assume i: "i < length v1"
    then have l1: "length (v1 ! i) = c" and l2: "length (v2 ! i) = c"
      using assms by auto
    show "v1 ! i = v2 ! i"
    proof (rule nth_equalityI)
      show "length (v1 ! i) = length (v2 ! i)" using l1 l2 by simp
    next
      fix j assume "j < length (v1 ! i)"
      then show "v1 ! i ! j = v2 ! i ! j" using H i l1 assms(1) by simp
    qed
  qed
qed

text \<open>
  C9. Two matrices (instances satisfying the invariant of the data model) compare equal
  iff they have the same \<open>filas\<close> and \<open>columnas\<close> and the same value at every position; the
  augmented flag plays no role: changing only the flag of a matrix gives an equal matrix.
\<close>

theorem Matriz_eq_iff:
  assumes "bien_formada A" and "bien_formada B"
  shows "(Matriz_eq A (ObjMatriz B) \<longleftrightarrow>
            filas A = filas B \<and> columnas A = columnas B \<and>
            (\<forall>i < nat (filas A). \<forall>j < nat (columnas A).
               valores A ! i ! j = valores B ! i ! j))
         \<and> Matriz_eq A (ObjMatriz (A\<lparr>aumentada := x\<rparr>))
         \<and> Matriz_eq (A\<lparr>aumentada := x\<rparr>) (ObjMatriz A)"
proof -
  have refl: "Matriz_eq A (ObjMatriz (A\<lparr>aumentada := x\<rparr>))"
    "Matriz_eq (A\<lparr>aumentada := x\<rparr>) (ObjMatriz A)"
    by (simp_all add: valores_iguales_refl)
  have "Matriz_eq A (ObjMatriz B) \<longleftrightarrow>
          filas A = filas B \<and> columnas A = columnas B \<and>
          (\<forall>i < nat (filas A). \<forall>j < nat (columnas A). valores A ! i ! j = valores B ! i ! j)"
  proof (cases "filas A = filas B \<and> columnas A = columnas B")
    case False
    then show ?thesis by auto
  next
    case True
    have la: "length (valores A) = nat (filas A)" and lb: "length (valores B) = nat (filas A)"
      using assms True by (simp_all add: bien_formada_def)
    have ra: "\<forall>f \<in> set (valores A). length f = nat (columnas A)"
      using assms(1) by (auto simp: bien_formada_def)
    have rb: "\<forall>f \<in> set (valores B). length f = nat (columnas A)"
      using assms(2) True by (auto simp: bien_formada_def)
    have "valores_iguales (valores A) (valores B) \<longleftrightarrow> valores A = valores B"
      using valores_iguales_iff [OF _ ra rb] la lb by simp
    also have "\<dots> \<longleftrightarrow> (\<forall>i < nat (filas A). \<forall>j < nat (columnas A).
                          valores A ! i ! j = valores B ! i ! j)"
      by (rule grid_eq_iff [OF la lb ra rb])
    finally show ?thesis using True by simp
  qed
  with refl show ?thesis by blast
qed


lemma bien_formada_ejemplo: "bien_formada mat_ejemplo"
  by (simp add: bien_formada_def mat_ejemplo_def)

lemma bien_formada_ejemplo_b: "bien_formada mat_ejemplo_b"
  by (simp add: bien_formada_def mat_ejemplo_b_def)

theorem Matriz_eq_iff_witness:
  "bien_formada mat_ejemplo \<and> bien_formada mat_ejemplo_b
   \<and> \<not> Matriz_eq mat_ejemplo (ObjMatriz mat_ejemplo_b)
   \<and> valores mat_ejemplo ! 1 ! 1 \<noteq> valores mat_ejemplo_b ! 1 ! 1
   \<and> Matriz_eq mat_ejemplo (ObjMatriz (mat_ejemplo\<lparr>aumentada := True\<rparr>))"
  using Matriz_eq_iff [OF bien_formada_ejemplo bien_formada_ejemplo_b, of True]
    bien_formada_ejemplo bien_formada_ejemplo_b
  by (simp add: mat_ejemplo_def mat_ejemplo_b_def valores_iguales_def)

text \<open>
  C10. Comparing a matrix with a value that is not a matrix answers False; \<open>__eq__\<close> has no
  raising path, so the comparison has a boolean answer for every operand.
\<close>

theorem Matriz_eq_no_matriz:
  "\<not> Matriz_eq A ObjOtro \<and> \<not> Matriz_eq A (ObjFraction q)
   \<and> (\<exists>r. Matriz_eq A ob = r)"
  by simp

section \<open>Addition and subtraction\<close>







section \<open>Transposition\<close>

lemma comprension_map:
  "(\<And>x. x \<in> set xs \<Longrightarrow> g x = Inr (h x)) \<Longrightarrow> comprension g xs = Inr (map h xs)"
  by (induction xs) simp_all

lemma transponer_valores:
  assumes "bien_formada A"
  shows "transponer A =
     Inr \<lparr>aumentada = aumentada A, filas = columnas A, columnas = filas A,
          valores = map (\<lambda>i. map (\<lambda>j. valores A ! j ! i) [0..<nat (filas A)])
                      [0..<nat (columnas A)]\<rparr>"
proof -
  have f: "forma (nat (filas A)) (nat (columnas A)) (valores A)"
    using assms by (rule bien_formada_forma)
  have inner: "comprension (\<lambda>j. elem (valores A) (int j) (int i)) [0..<nat (filas A)]
      = Inr (map (\<lambda>j. valores A ! j ! i) [0..<nat (filas A)])"
    if "i < nat (columnas A)" for i
    by (rule comprension_map) (use that f in \<open>simp add: elem_int forma_nth forma_length\<close>)
  have "comprension
          (\<lambda>i. comprension (\<lambda>j. elem (valores A) (int j) (int i)) [0..<nat (filas A)])
          [0..<nat (columnas A)]
        = Inr (map (\<lambda>i. map (\<lambda>j. valores A ! j ! i) [0..<nat (filas A)])
                 [0..<nat (columnas A)])"
    by (rule comprension_map) (simp add: inner)
  then show ?thesis by (simp add: transponer_def)
qed

lemma bien_formada_transpuesta:
  assumes "bien_formada A" and "transponer A = Inr T"
  shows "bien_formada T"
  using assms by (auto simp: transponer_valores bien_formada_def)

text \<open>
  C6. For every matrix \<open>A\<close> (satisfying the invariant), \<open>transponer\<close> returns a new matrix with
  \<open>columnas A\<close> rows and \<open>filas A\<close> columns, entry \<open>[i][j]\<close> equal to \<open>A[j][i]\<close>, and the
  augmented flag of \<open>A\<close>; transposing the result again gives a matrix that \<open>__eq__\<close> finds
  equal to \<open>A\<close> (it is \<open>A\<close>, flag included).
\<close>

theorem transponer_correcta:
  assumes "bien_formada A"
  shows "\<exists>T T2. transponer A = Inr T
           \<and> filas T = columnas A \<and> columnas T = filas A \<and> aumentada T = aumentada A
           \<and> length (valores T) = nat (columnas A)
           \<and> (\<forall>i < nat (columnas A). length (valores T ! i) = nat (filas A)
                \<and> (\<forall>j < nat (filas A). valores T ! i ! j = valores A ! j ! i))
           \<and> transponer T = Inr T2 \<and> Matriz_eq T2 (ObjMatriz A) \<and> T2 = A"
proof -
  let ?n = "nat (filas A)" and ?c = "nat (columnas A)"
  let ?T = "\<lparr>aumentada = aumentada A, filas = columnas A, columnas = filas A,
          valores = map (\<lambda>i. map (\<lambda>j. valores A ! j ! i) [0..<?n]) [0..<?c]\<rparr>"
  have T: "transponer A = Inr ?T" by (rule transponer_valores [OF assms])
  have wfT: "bien_formada ?T" by (rule bien_formada_transpuesta [OF assms T])
  have f: "forma ?n ?c (valores A)" and len: "length (valores A) = ?n"
    using assms by (simp_all add: bien_formada_forma bien_formada_length)
  have rows: "map (\<lambda>j. valores A ! i ! j) [0..<?c] = valores A ! i" if "i < ?n" for i
    using forma_nth [OF f that] by (metis map_nth)
  have ent: "valores ?T ! j ! i = valores A ! i ! j" if "i < ?n" "j < ?c" for i j
    using that by simp
  have fila: "map (\<lambda>j. valores ?T ! j ! i) [0..<?c] = valores A ! i" if "i < ?n" for i
  proof -
    have "map (\<lambda>j. valores ?T ! j ! i) [0..<?c] = map (\<lambda>j. valores A ! i ! j) [0..<?c]"
      by (rule map_cong) (use ent that in auto)
    then show ?thesis using rows [OF that] by simp
  qed
  have "map (\<lambda>i. map (\<lambda>j. valores ?T ! j ! i) [0..<?c]) [0..<?n]
          = map (\<lambda>i. valores A ! i) [0..<?n]"
    by (rule map_cong) (use fila in auto)
  also have "\<dots> = valores A" using len by (metis map_nth)
  finally have vuelta: "map (\<lambda>i. map (\<lambda>j. valores ?T ! j ! i) [0..<?c]) [0..<?n] = valores A" .
  have T2: "transponer ?T = Inr A"
    using transponer_valores [OF wfT] vuelta by simp
  have eq: "Matriz_eq A (ObjMatriz A)" by (simp add: valores_iguales_refl)
  show ?thesis using T T2 eq by simp
qed


theorem transponer_correcta_witness:
  "bien_formada mat_ejemplo \<and>
   (\<exists>T T2. transponer mat_ejemplo = Inr T
           \<and> filas T = columnas mat_ejemplo \<and> columnas T = filas mat_ejemplo
           \<and> aumentada T = aumentada mat_ejemplo
           \<and> length (valores T) = nat (columnas mat_ejemplo)
           \<and> (\<forall>i < nat (columnas mat_ejemplo). length (valores T ! i) = nat (filas mat_ejemplo)
                \<and> (\<forall>j < nat (filas mat_ejemplo). valores T ! i ! j = valores mat_ejemplo ! j ! i))
           \<and> transponer T = Inr T2 \<and> Matriz_eq T2 (ObjMatriz mat_ejemplo) \<and> T2 = mat_ejemplo)"
  using transponer_correcta [OF bien_formada_ejemplo] bien_formada_ejemplo by blast

section \<open>The identity predicate\<close>

lemma todos_diagonal_ok:
  "(\<And>i. i \<in> set is \<Longrightarrow> i < length m \<and> i < length (m ! i)) \<Longrightarrow>
   todos_diagonal m is = Inr (\<forall>i \<in> set is. m ! i ! i = 1)"
  by (induction "is") (simp_all add: elem_int)

lemma todos_resto_ok:
  "(\<And>i j. (i, j) \<in> set ps \<Longrightarrow> i < length m \<and> j < length (m ! i)) \<Longrightarrow>
   todos_resto m ps = Inr (\<forall>(i, j) \<in> set ps. i \<noteq> j \<longrightarrow> m ! i ! j = 0)"
proof (induction ps)
  case Nil
  show ?case by simp
next
  case (Cons p ps)
  obtain i j where p: "p = (i, j)" by (cases p)
  have "i < length m \<and> j < length (m ! i)" using Cons.prems [of i j] p by simp
  moreover have "todos_resto m ps = Inr (\<forall>(i, j) \<in> set ps. i \<noteq> j \<longrightarrow> m ! i ! j = 0)"
    by (rule Cons.IH) (use Cons.prems in auto)
  ultimately show ?case using p by (auto simp: elem_int)
qed

lemma es_identidad_ancha:
  assumes "bien_formada A" and "filas A \<le> columnas A"
  shows "es_identidad A =
     Inr (filas A = columnas A
          \<and> (\<forall>i < nat (filas A). valores A ! i ! i = 1)
          \<and> (\<forall>i < nat (filas A). \<forall>j < nat (columnas A). i \<noteq> j \<longrightarrow> valores A ! i ! j = 0))"
proof -
  let ?n = "nat (filas A)" and ?c = "nat (columnas A)"
  have f: "forma ?n ?c (valores A)" and len: "length (valores A) = ?n"
    using assms by (simp_all add: bien_formada_forma bien_formada_length)
  have nc: "?n \<le> ?c" using assms by (simp add: bien_formada_def)
  have d: "todos_diagonal (valores A) [0..<?n] = Inr (\<forall>i \<in> set [0..<?n]. valores A ! i ! i = 1)"
    by (rule todos_diagonal_ok) (use f len nc in \<open>auto simp: forma_nth\<close>)
  have r: "todos_resto (valores A) (List.product [0..<?n] [0..<?c])
         = Inr (\<forall>(i, j) \<in> set (List.product [0..<?n] [0..<?c]). i \<noteq> j \<longrightarrow> valores A ! i ! j = 0)"
    by (rule todos_resto_ok) (use f len in \<open>auto simp: forma_nth\<close>)
  show ?thesis
    unfolding es_identidad_def d r by (auto simp: es_cuadrada_def)
qed

text \<open>
  C2. \<open>es_identidad\<close> is meant to answer False for a matrix that is not square. On the
  2 x 1 matrix \<open>[[1], [0]]\<close> it raises IndexError instead: the diagonal test reads
  \<open>valores[1][1]\<close> before \<open>es_cuadrada()\<close> is consulted.
\<close>

theorem es_identidad_matriz_alta: "es_identidad mat_alta = Inl IndexError"
  by (simp add: mat_alta_def es_identidad_def elem_def py_index_def upt_rec)

section \<open>Row and element access\<close>

lemma fila_longitud:
  "bien_formada A \<Longrightarrow> 0 \<le> f \<Longrightarrow> f < filas A \<Longrightarrow> int (length (valores A ! nat f)) = columnas A"
  by (simp add: bien_formada_def)

lemma getitem_fila:
  assumes "bien_formada A"
  shows "Matriz_getitem A (IndiceEntero i) =
     (if 0 \<le> i \<and> i < filas A then Inr (Fila (valores A ! nat i)) else Inl IndexError)"
  using assms by (auto simp: bien_formada_def py_index_def)

lemma setitem_elemento:
  assumes "bien_formada A"
  shows "Matriz_setitem A (f, c) v =
     (if 0 \<le> f \<and> f < filas A \<and> 0 \<le> c \<and> c < columnas A
      then Inr (A\<lparr>valores := (valores A)[nat f := (valores A ! nat f)[nat c := v]]\<rparr>)
      else Inl IndexError)"
proof (cases "0 \<le> f \<and> f < filas A \<and> 0 \<le> c \<and> c < columnas A")
  case True
  then have "int (length (valores A ! nat f)) = columnas A"
    using fila_longitud [OF assms] by simp
  moreover have "filas A = int (length (valores A))" using assms by (simp add: bien_formada_def)
  ultimately show ?thesis using True
    by (simp add: py_index_def py_setitem_def asignar_def)
next
  case False
  then show ?thesis by auto
qed

lemma getitem_elemento_no_negativo:
  assumes "bien_formada A" and "0 \<le> f" and "0 \<le> c"
  shows "Matriz_getitem A (IndiceTupla [f, c]) =
     (if f < filas A \<and> c < columnas A then Inr (Elemento (valores A ! nat f ! nat c))
      else Inl IndexError)"
proof (cases "f < filas A \<and> c < columnas A")
  case True
  then have "int (length (valores A ! nat f)) = columnas A"
    using fila_longitud [OF assms(1,2)] by simp
  moreover have "filas A = int (length (valores A))" using assms by (simp add: bien_formada_def)
  ultimately show ?thesis using True assms(2,3)
    by (simp add: py_index_def elem_def)
next
  case False
  then show ?thesis by auto
qed

lemma getitem_elemento_negativo:
  assumes "bien_formada A" and "- filas A \<le> f" and "f < 0" and "0 \<le> c" and "c < columnas A"
  shows "Matriz_getitem A (IndiceTupla [f, c]) =
           Inr (Elemento (valores A ! nat (f + filas A) ! nat c))"
proof -
  have "int (length (valores A ! nat (f + filas A))) = columnas A"
    using fila_longitud [OF assms(1), of "f + filas A"] assms by simp
  moreover have "filas A = int (length (valores A))" using assms by (simp add: bien_formada_def)
  ultimately show ?thesis using assms(2-5)
    by (simp add: py_index_def elem_def)
qed

text \<open>
  C3. Element access is meant to raise IndexError for every index outside \<open>[0, bound)\<close>.
  On \<open>[[1, 2], [3, 4]]\<close> the access \<open>A[-1, 0]\<close> returns 3, the first entry of the last
  row: the tuple branch of \<open>__getitem__\<close> has no test for negative indices.
\<close>

theorem getitem_indice_negativo:
  "Matriz_getitem mat_ejemplo (IndiceTupla [-1, 0]) = Inr (Elemento 3)"
  by (simp add: mat_ejemplo_def elem_def py_index_def)

section \<open>Grids under element assignment\<close>

lemma forma_update:
  assumes "forma n c m"
  shows "forma n c (m[f := (m ! f)[k := v]])"
proof (rule formaI)
  show "length (m[f := (m ! f)[k := v]]) = n" using assms by (simp add: forma_length)
next
  fix r assume r: "r < n"
  then have "r < length m" using assms by (simp add: forma_length)
  then show "length (m[f := (m ! f)[k := v]] ! r) = c"
    using forma_nth [OF assms r] by (cases "r = f") simp_all
qed

lemma nth_update2:
  assumes "forma n c m" and "r < n" and "q < c"
  shows "m[f := (m ! f)[k := v]] ! r ! q = (if r = f \<and> q = k then v else m ! r ! q)"
proof -
  have "r < length m" and "q < length (m ! r)"
    using assms forma_nth [OF assms(1,2)] by (simp_all add: forma_length)
  then show ?thesis by (cases "r = f") (simp_all add: nth_list_update)
qed

section \<open>Matrix product\<close>

lemma mul_k_ok:
  assumes "i < length res" and "j < length (res ! i)" and "i < length a"
    and "\<forall>k \<in> set ks. k < length (a ! i) \<and> k < length b \<and> j < length (b ! k)"
  shows "mul_k res a b i j ks =
           Inr (res[i := (res ! i)[j := res ! i ! j + (\<Sum>k\<leftarrow>ks. a ! i ! k * b ! k ! j)]])"
  using assms
proof (induction ks arbitrary: res)
  case Nil
  then show ?case by simp
next
  case (Cons k ks)
  let ?res = "res[i := (res ! i)[j := res ! i ! j + a ! i ! k * b ! k ! j]]"
  have step: "mul_k res a b i j (k # ks) = mul_k ?res a b i j ks"
    using Cons.prems by (simp add: elem_int asignar_int)
  have "mul_k ?res a b i j ks =
          Inr (?res[i := (?res ! i)[j := ?res ! i ! j + (\<Sum>k\<leftarrow>ks. a ! i ! k * b ! k ! j)]])"
    by (rule Cons.IH) (use Cons.prems in simp_all)
  then show ?case using step Cons.prems(1,2) by (simp add: add.assoc)
qed

lemma mul_j_ok:
  assumes "forma n cb res" and "i < n" and "forma n ca a" and "forma ca cb b"
    and "distinct js" and "\<forall>j \<in> set js. j < cb"
  shows "\<exists>res'. mul_j res a b i ca js = Inr res' \<and> forma n cb res' \<and>
           (\<forall>r < n. \<forall>j < cb. res' ! r ! j =
              (if r = i \<and> j \<in> set js
               then res ! r ! j + (\<Sum>k\<leftarrow>[0..<ca]. a ! r ! k * b ! k ! j)
               else res ! r ! j))"
  using assms(1,5,6)
proof (induction js arbitrary: res)
  case Nil
  then show ?case by simp
next
  case (Cons j js)
  let ?res = "res[i := (res ! i)[j := res ! i ! j + (\<Sum>k\<leftarrow>[0..<ca]. a ! i ! k * b ! k ! j)]]"
  have j: "j < cb" and nj: "j \<notin> set js" using Cons.prems by simp_all
  have k: "mul_k res a b i j [0..<ca] = Inr ?res"
    by (rule mul_k_ok)
      (use Cons.prems(1) assms(2,3,4) j in \<open>simp_all add: forma_length forma_nth\<close>)
  have f: "forma n cb ?res" using Cons.prems(1) by (rule forma_update)
  obtain res' where r: "mul_j ?res a b i ca js = Inr res'" and f': "forma n cb res'"
    and v: "\<forall>r < n. \<forall>j < cb. res' ! r ! j =
              (if r = i \<and> j \<in> set js
               then ?res ! r ! j + (\<Sum>k\<leftarrow>[0..<ca]. a ! r ! k * b ! k ! j)
               else ?res ! r ! j)"
    using Cons.IH [OF f] Cons.prems(2,3) by auto
  have "mul_j res a b i ca (j # js) = Inr res'" using k r by simp
  moreover have "\<forall>r < n. \<forall>q < cb. res' ! r ! q =
              (if r = i \<and> q \<in> set (j # js)
               then res ! r ! q + (\<Sum>k\<leftarrow>[0..<ca]. a ! r ! k * b ! k ! q)
               else res ! r ! q)"
    using v nj by (auto simp: nth_update2 [OF Cons.prems(1)])
  ultimately show ?case using f' by blast
qed

lemma mul_i_ok:
  assumes "forma n cb res" and "forma n ca a" and "forma ca cb b"
    and "distinct is" and "\<forall>i \<in> set is. i < n"
  shows "\<exists>res'. mul_i res a b cb ca is = Inr res' \<and> forma n cb res' \<and>
           (\<forall>r < n. \<forall>j < cb. res' ! r ! j =
              (if r \<in> set is
               then res ! r ! j + (\<Sum>k\<leftarrow>[0..<ca]. a ! r ! k * b ! k ! j)
               else res ! r ! j))"
  using assms(1,4,5)
proof (induction "is" arbitrary: res)
  case Nil
  then show ?case by simp
next
  case (Cons i "is")
  have i: "i < n" and ni: "i \<notin> set is" using Cons.prems by simp_all
  obtain res1 where r1: "mul_j res a b i ca [0..<cb] = Inr res1" and f1: "forma n cb res1"
    and v1: "\<forall>r < n. \<forall>j < cb. res1 ! r ! j =
              (if r = i \<and> j \<in> set [0..<cb]
               then res ! r ! j + (\<Sum>k\<leftarrow>[0..<ca]. a ! r ! k * b ! k ! j)
               else res ! r ! j)"
    using mul_j_ok [OF Cons.prems(1) i assms(2,3), of "[0..<cb]"] by auto
  obtain res' where r: "mul_i res1 a b cb ca is = Inr res'" and f': "forma n cb res'"
    and v: "\<forall>r < n. \<forall>j < cb. res' ! r ! j =
              (if r \<in> set is
               then res1 ! r ! j + (\<Sum>k\<leftarrow>[0..<ca]. a ! r ! k * b ! k ! j)
               else res1 ! r ! j)"
    using Cons.IH [OF f1] Cons.prems(2,3) by auto
  have "mul_i res a b cb ca (i # is) = Inr res'" using r1 r by simp
  moreover have "\<forall>r < n. \<forall>j < cb. res' ! r ! j =
              (if r \<in> set (i # is)
               then res ! r ! j + (\<Sum>k\<leftarrow>[0..<ca]. a ! r ! k * b ! k ! j)
               else res ! r ! j)"
    using v v1 ni by auto
  ultimately show ?case using f' by blast
qed


lemma forma_replicate: "forma n c (replicate n (replicate c x))"
  by (simp add: forma_def)

text \<open>
  C7. For matrices \<open>a\<close> and \<open>b\<close> (satisfying the invariant), \<open>a * b\<close> raises ArithmeticError,
  the class's dimension error, iff \<open>a.columnas != b.filas\<close>; otherwise it returns a new
  \<open>a.filas\<close> x \<open>b.columnas\<close> matrix with entry \<open>[i][j]\<close> equal to the exact rational sum
  over \<open>k\<close> of \<open>a[i][k] * b[k][j]\<close>, and with the augmented flag of \<open>a\<close>.
\<close>

theorem Matriz_mul_correcta:
  assumes "bien_formada A" and "bien_formada B"
  shows "(Matriz_mul A (ObjMatriz B) = Inl ArithmeticError \<longleftrightarrow> columnas A \<noteq> filas B)
       \<and> (columnas A = filas B \<longrightarrow>
            (\<exists>P. Matriz_mul A (ObjMatriz B) = Inr P
               \<and> filas P = filas A \<and> columnas P = columnas B \<and> aumentada P = aumentada A
               \<and> bien_formada P
               \<and> (\<forall>i < nat (filas A). \<forall>j < nat (columnas B).
                    valores P ! i ! j =
                      (\<Sum>k = 0..<nat (columnas A). valores A ! i ! k * valores B ! k ! j))))"
proof (cases "columnas A = filas B")
  case False
  then show ?thesis by simp
next
  case True
  let ?n = "nat (filas A)" and ?ca = "nat (columnas A)" and ?cb = "nat (columnas B)"
  have fa: "forma ?n ?ca (valores A)" using assms(1) by (rule bien_formada_forma)
  have fb: "forma ?ca ?cb (valores B)" using bien_formada_forma [OF assms(2)] True by simp
  obtain res where r: "mul_i (replicate ?n (replicate ?cb 0)) (valores A) (valores B) ?cb ?ca [0..<?n]
                         = Inr res"
    and fr: "forma ?n ?cb res"
    and v: "\<forall>r < ?n. \<forall>j < ?cb. res ! r ! j =
              (if r \<in> set [0..<?n]
               then replicate ?n (replicate ?cb 0) ! r ! j
                      + (\<Sum>k\<leftarrow>[0..<?ca]. valores A ! r ! k * valores B ! k ! j)
               else replicate ?n (replicate ?cb 0) ! r ! j)"
    using mul_i_ok [OF forma_replicate fa fb, of "[0..<?n]" 0] by auto
  let ?P = "\<lparr>aumentada = aumentada A, filas = filas A, columnas = columnas B, valores = res\<rparr>"
  have P: "Matriz_mul A (ObjMatriz B) = Inr ?P" using True r by simp
  have wf: "bien_formada ?P"
    using fr assms by (auto simp: bien_formada_def forma_def)
  have "\<forall>i < ?n. \<forall>j < ?cb. res ! i ! j =
          (\<Sum>k = 0..<?ca. valores A ! i ! k * valores B ! k ! j)"
    using v by (simp add: interv_sum_list_conv_sum_set_nat)
  then show ?thesis using P wf True by simp
qed

theorem Matriz_mul_correcta_witness:
  "bien_formada mat_ejemplo \<and> columnas mat_ejemplo = filas mat_ejemplo
   \<and> Matriz_mul mat_ejemplo (ObjMatriz mat_ejemplo)
       = Inr \<lparr>aumentada = False, filas = 2, columnas = 2, valores = [[7, 10], [15, 22]]\<rparr>
   \<and> (\<exists>P. Matriz_mul mat_ejemplo (ObjMatriz mat_ejemplo) = Inr P
         \<and> (\<forall>i < nat (filas mat_ejemplo). \<forall>j < nat (columnas mat_ejemplo).
              valores P ! i ! j =
                (\<Sum>k = 0..<nat (columnas mat_ejemplo).
                    valores mat_ejemplo ! i ! k * valores mat_ejemplo ! k ! j)))"
proof -
  have d: "columnas mat_ejemplo = filas mat_ejemplo" by (simp add: mat_ejemplo_def)
  have e: "Matriz_mul mat_ejemplo (ObjMatriz mat_ejemplo)
       = Inr \<lparr>aumentada = False, filas = 2, columnas = 2, valores = [[7, 10], [15, 22]]\<rparr>"
    by code_simp
  show ?thesis
    using Matriz_mul_correcta [OF bien_formada_ejemplo bien_formada_ejemplo] d e
      bien_formada_ejemplo by blast
qed

section \<open>Reduction to upper triangular form\<close>

lemma restar_fila_ok:
  assumes "forma n c m" and "i < n" and "j < n" and "i \<noteq> j"
    and "distinct ks" and "\<forall>k \<in> set ks. k < c"
  shows "\<exists>m'. restar_fila m i j factor ks = Inr m' \<and> forma n c m' \<and>
           (\<forall>r < n. \<forall>q < c. m' ! r ! q =
              (if r = j \<and> q \<in> set ks then m ! r ! q - factor * m ! i ! q else m ! r ! q))"
  using assms(1,5,6)
proof (induction ks arbitrary: m)
  case Nil
  then show ?case by simp
next
  case (Cons k ks)
  let ?m = "m[j := (m ! j)[k := m ! j ! k - factor * m ! i ! k]]"
  have k: "k < c" and nk: "k \<notin> set ks" using Cons.prems by simp_all
  have step: "restar_fila m i j factor (k # ks) = restar_fila ?m i j factor ks"
    using Cons.prems(1) assms(2,3) k
    by (simp add: elem_int asignar_int forma_length forma_nth)
  have f: "forma n c ?m" using Cons.prems(1) by (rule forma_update)
  obtain m' where r: "restar_fila ?m i j factor ks = Inr m'" and f': "forma n c m'"
    and v: "\<forall>r < n. \<forall>q < c. m' ! r ! q =
              (if r = j \<and> q \<in> set ks then ?m ! r ! q - factor * ?m ! i ! q else ?m ! r ! q)"
    using Cons.IH [OF f] Cons.prems(2,3) by auto
  have "\<forall>r < n. \<forall>q < c. m' ! r ! q =
          (if r = j \<and> q \<in> set (k # ks) then m ! r ! q - factor * m ! i ! q else m ! r ! q)"
    using v nk assms(2,4) by (auto simp: nth_update2 [OF Cons.prems(1)])
  then show ?case using step r f' by auto
qed

lemma eliminar_filas_ok:
  assumes "forma n c m" and "i < n" and "i < c" and "m ! i ! i \<noteq> 0"
    and "distinct js" and "\<forall>j \<in> set js. j < n \<and> j \<noteq> i"
  shows "\<exists>m'. eliminar_filas m i c js = Inr m' \<and> forma n c m' \<and>
           (\<forall>r < n. \<forall>q < c. m' ! r ! q =
              (if r \<in> set js then m ! r ! q - (m ! r ! i / m ! i ! i) * m ! i ! q
               else m ! r ! q))"
  using assms(1,4,5,6)
proof (induction js arbitrary: m)
  case Nil
  then show ?case by simp
next
  case (Cons j js)
  have j: "j < n" "i \<noteq> j" and nj: "j \<notin> set js" using Cons.prems by auto
  obtain m1 where r1: "restar_fila m i j (m ! j ! i / m ! i ! i) [0..<c] = Inr m1"
    and f1: "forma n c m1"
    and v1: "\<forall>r < n. \<forall>q < c. m1 ! r ! q =
              (if r = j \<and> q \<in> set [0..<c]
               then m ! r ! q - (m ! j ! i / m ! i ! i) * m ! i ! q else m ! r ! q)"
    using restar_fila_ok [OF Cons.prems(1) assms(2) j, of "[0..<c]" "m ! j ! i / m ! i ! i"]
    by auto
  have step: "eliminar_filas m i c (j # js) = eliminar_filas m1 i c js"
    using Cons.prems(1,2) assms(2,3) j r1
    by (simp add: elem_int forma_length forma_nth)
  have piv: "m1 ! i ! i = m ! i ! i" using v1 assms(2,3) j by simp
  obtain m' where r: "eliminar_filas m1 i c js = Inr m'" and f': "forma n c m'"
    and v: "\<forall>r < n. \<forall>q < c. m' ! r ! q =
              (if r \<in> set js then m1 ! r ! q - (m1 ! r ! i / m1 ! i ! i) * m1 ! i ! q
               else m1 ! r ! q)"
    using Cons.IH [OF f1] piv Cons.prems(2,3,4) by auto
  have "\<forall>r < n. \<forall>q < c. m' ! r ! q =
          (if r \<in> set (j # js) then m ! r ! q - (m ! r ! i / m ! i ! i) * m ! i ! q
           else m ! r ! q)"
  proof (intro allI impI)
    fix r q assume rq: "r < n" "q < c"
    show "m' ! r ! q =
          (if r \<in> set (j # js) then m ! r ! q - (m ! r ! i / m ! i ! i) * m ! i ! q
           else m ! r ! q)"
    proof (cases "r = j")
      case True
      then show ?thesis using v v1 rq nj by simp
    next
      case False
      then show ?thesis using v v1 rq assms(2,3) j piv by simp
    qed
  qed
  then show ?case using step r f' by auto
qed

lemma max_fila_loop_ok:
  assumes "forma n c m" and "i < c" and "mejor < n" and "clave = abs (m ! mejor ! i)"
    and "\<forall>j \<in> set js. j < n"
  shows "\<exists>f. max_fila_loop m i mejor clave js = Inr f \<and> (f = mejor \<or> f \<in> set js)
           \<and> abs (m ! mejor ! i) \<le> abs (m ! f ! i)
           \<and> (\<forall>r \<in> set js. abs (m ! r ! i) \<le> abs (m ! f ! i))"
  using assms(3,4,5)
proof (induction js arbitrary: mejor clave)
  case Nil
  then show ?case by simp
next
  case (Cons j js)
  have j: "j < n" using Cons.prems by simp
  have e: "elem m (int j) (int i) = Inr (m ! j ! i)"
    using assms(1,2) j by (simp add: elem_int forma_length forma_nth)
  show ?case
  proof (cases "abs (m ! j ! i) > clave")
    case True
    obtain f where "max_fila_loop m i j (abs (m ! j ! i)) js = Inr f" "f = j \<or> f \<in> set js"
      "abs (m ! j ! i) \<le> abs (m ! f ! i)" "\<forall>r \<in> set js. abs (m ! r ! i) \<le> abs (m ! f ! i)"
      using Cons.IH [OF j refl] Cons.prems(3) by auto
    then show ?thesis using e True Cons.prems(2) by auto
  next
    case False
    obtain f where "max_fila_loop m i mejor clave js = Inr f" "f = mejor \<or> f \<in> set js"
      "abs (m ! mejor ! i) \<le> abs (m ! f ! i)" "\<forall>r \<in> set js. abs (m ! r ! i) \<le> abs (m ! f ! i)"
      using Cons.IH [OF Cons.prems(1,2)] Cons.prems(3) by auto
    then show ?thesis using e False Cons.prems(2) by auto
  qed
qed

lemma max_fila_ok:
  assumes "forma n c m" and "i < c" and "i < n"
  shows "\<exists>f. max_fila m i n = Inr f \<and> i \<le> f \<and> f < n
           \<and> (\<forall>r. i \<le> r \<and> r < n \<longrightarrow> abs (m ! r ! i) \<le> abs (m ! f ! i))"
proof -
  obtain f where l: "max_fila_loop m i i (abs (m ! i ! i)) [Suc i..<n] = Inr f"
    and m: "f = i \<or> f \<in> set [Suc i..<n]" and a: "abs (m ! i ! i) \<le> abs (m ! f ! i)"
    and b: "\<forall>r \<in> set [Suc i..<n]. abs (m ! r ! i) \<le> abs (m ! f ! i)"
    using max_fila_loop_ok [OF assms(1,2,3) refl, of "[Suc i..<n]"] by auto
  have "max_fila m i n = Inr f"
    using l assms by (simp add: max_fila_def elem_int forma_length forma_nth)
  moreover have "i \<le> f \<and> f < n" using m assms(3) by auto
  moreover have "abs (m ! r ! i) \<le> abs (m ! f ! i)" if "i \<le> r" "r < n" for r
  proof (cases "r = i")
    case True
    then show ?thesis using a by simp
  next
    case False
    then show ?thesis using b that by simp
  qed
  ultimately show ?thesis by blast
qed

lemma intercambiar_filas_int:
  "i < length m \<Longrightarrow> f < length m \<Longrightarrow>
   intercambiar_filas m (int i) (int f) = Inr (m[i := m ! f, f := m ! i])"
  by (simp add: intercambiar_filas_def py_index_int py_setitem_int)

lemma forma_intercambio:
  assumes "forma n c m" and "i < n" and "f < n"
  shows "forma n c (m[i := m ! f, f := m ! i])"
proof (rule formaI)
  show "length (m[i := m ! f, f := m ! i]) = n" using assms by (simp add: forma_length)
next
  fix r assume r: "r < n"
  have "length (m ! r) = c" "length (m ! i) = c" "length (m ! f) = c"
    using assms r by (simp_all add: forma_nth)
  then show "length (m[i := m ! f, f := m ! i] ! r) = c"
    using assms r by (simp add: nth_list_update forma_length)
qed

lemma nth_intercambio:
  assumes "forma n c m" and "i < n" and "f < n" and "r < n"
  shows "m[i := m ! f, f := m ! i] ! r = (if r = f then m ! i else if r = i then m ! f else m ! r)"
  using assms by (simp add: nth_list_update forma_length)


lemma triangular_intercambio:
  assumes "forma n c m" and "i \<le> f" and "f < n" and "triangular_hasta n i m"
  shows "triangular_hasta n i (m[i := m ! f, f := m ! i])"
  unfolding triangular_hasta_def
proof (intro allI impI)
  fix q r assume q: "q < i" and r: "r < n" and qr: "q < r"
  have i: "i < n" using assms(2,3) by simp
  have z: "m ! t ! q = 0" if "t < n" "q < t" for t
    using assms(4) q that by (simp add: triangular_hasta_def)
  have "m ! i ! q = 0" "m ! f ! q = 0" "m ! r ! q = 0"
    using z i assms(2,3) q r qr by simp_all
  then show "m[i := m ! f, f := m ! i] ! r ! q = 0"
    by (simp add: nth_intercambio [OF assms(1) i assms(3) r])
qed

lemma triangular_eliminado:
  assumes "triangular_hasta n i m1" and "i < n" and "i < c" and "m1 ! i ! i \<noteq> 0"
    and "\<forall>r < n. \<forall>q < c. m2 ! r ! q =
           (if r \<in> set [Suc i..<n] then m1 ! r ! q - (m1 ! r ! i / m1 ! i ! i) * m1 ! i ! q
            else m1 ! r ! q)"
  shows "triangular_hasta n (Suc i) m2"
  unfolding triangular_hasta_def
proof (intro allI impI)
  fix q r assume q: "q < Suc i" and r: "r < n" and qr: "q < r"
  have qc: "q < c" using q assms(3) by simp
  have z: "m1 ! t ! q = 0" if "t < n" "q < t" "q < i" for t
    using assms(1) that by (simp add: triangular_hasta_def)
  show "m2 ! r ! q = 0"
  proof (cases "i < r")
    case False
    then have "q < i" using qr by simp
    moreover have "m2 ! r ! q = m1 ! r ! q" using assms(5) r qc False by simp
    ultimately show ?thesis using z r qr by simp
  next
    case True
    then have e: "m2 ! r ! q = m1 ! r ! q - (m1 ! r ! i / m1 ! i ! i) * m1 ! i ! q"
      using assms(5) r qc by simp
    show ?thesis
    proof (cases "q = i")
      case True
      then show ?thesis using e assms(4) by simp
    next
      case False
      then have "q < i" using q by simp
      then have "m1 ! r ! q = 0" "m1 ! i ! q = 0" using z r qr assms(2) by simp_all
      then show ?thesis using e by simp
    qed
  qed
qed


lemma paso_triangular_ok:
  assumes "forma n c m" and "i < n" and "i < c"
  shows "\<exists>m' b'. paso_triangular n c (m, b) i = Inr (m', b') \<and> forma n c m'
           \<and> (triangular_hasta n i m \<longrightarrow> triangular_hasta n (Suc i) m')"
proof -
  obtain f where mf: "max_fila m i n = Inr f" and f: "i \<le> f" "f < n"
    and mx: "\<forall>r. i \<le> r \<and> r < n \<longrightarrow> abs (m ! r ! i) \<le> abs (m ! f ! i)"
    using max_fila_ok [OF assms(1,3,2)] by auto
  have e: "elem m (int f) (int i) = Inr (m ! f ! i)"
    using assms f by (simp add: elem_int forma_length forma_nth)
  show ?thesis
  proof (cases "m ! f ! i = 0")
    case True
    have p: "paso_triangular n c (m, b) i = Inr (m, b)"
      using mf e True by simp
    have col: "m ! r ! i = 0" if "i \<le> r" "r < n" for r
      using mx that True by auto
    have "triangular_hasta n (Suc i) m" if "triangular_hasta n i m"
      unfolding triangular_hasta_def
    proof (intro allI impI)
      fix q r assume "q < Suc i" "r < n" "q < r"
      then show "m ! r ! q = 0"
        using that col [of r] by (cases "q = i") (simp_all add: triangular_hasta_def)
    qed
    then show ?thesis using p assms(1) by simp
  next
    case False
    let ?m1 = "m[i := m ! f, f := m ! i]"
    have f1: "forma n c ?m1" by (rule forma_intercambio [OF assms(1,2) f(2)])
    have sw: "(if f \<noteq> i
               then (case intercambiar_filas m (int i) (int f) of Inl e \<Rightarrow> Inl e
                     | Inr m1 \<Rightarrow> Inr (m1, \<not> b))
               else Inr (m, b)) = Inr (?m1, if f \<noteq> i then \<not> b else b)"
      using assms(1,2) f(2) by (simp add: intercambiar_filas_int forma_length)
    have piv: "?m1 ! i ! i = m ! f ! i"
      using nth_intercambio [OF assms(1,2) f(2) assms(2)] by simp
    then have nz: "?m1 ! i ! i \<noteq> 0" using False by simp
    obtain m2 where r2: "eliminar_filas ?m1 i c [Suc i..<n] = Inr m2" and f2: "forma n c m2"
      and v2: "\<forall>r < n. \<forall>q < c. m2 ! r ! q =
           (if r \<in> set [Suc i..<n] then ?m1 ! r ! q - (?m1 ! r ! i / ?m1 ! i ! i) * ?m1 ! i ! q
            else ?m1 ! r ! q)"
      using eliminar_filas_ok [OF f1 assms(2,3) nz, of "[Suc i..<n]"] by auto
    have p: "paso_triangular n c (m, b) i = Inr (m2, if f \<noteq> i then \<not> b else b)"
      using mf e False r2 sw by simp
    have "triangular_hasta n (Suc i) m2" if "triangular_hasta n i m"
      using triangular_eliminado [OF triangular_intercambio [OF assms(1) f that] assms(2,3) nz v2] .
    then show ?thesis using p f2 by simp
  qed
qed










subsection \<open>Matrices with more rows than columns\<close>

text \<open>
  What the source does outside \<open>filas \<le> columnas\<close>: the iteration \<open>i = columnas\<close> indexes a
  column that no row has, so every matrix with more rows than columns raises IndexError.
\<close>

lemma paso_triangular_fuera:
  assumes "forma n c m" and "c < n"
  shows "paso_triangular n c (m, b) c = Inl IndexError"
  using assms by (simp add: max_fila_def elem_int forma_length forma_nth)

lemma triangular_loop_alta:
  assumes "forma n c m" and "c < n" and "i \<le> c"
  shows "triangular_loop n c (m, b) [i..<n] = Inl IndexError"
  using assms(1,3)
proof (induction "c - i" arbitrary: i m b)
  case 0
  then have "i = c" by simp
  then show ?case
    using paso_triangular_fuera [OF "0.prems"(1) assms(2), of b] assms(2)
    by (simp add: upt_conv_Cons)
next
  case (Suc d)
  then have i: "i < c" "i < n" using assms(2) by simp_all
  obtain m1 b1 where p: "paso_triangular n c (m, b) i = Inr (m1, b1)" and f1: "forma n c m1"
    using paso_triangular_ok [OF Suc.prems(1) i(2,1), of b] by auto
  have "d = c - Suc i" using Suc.hyps(2) by simp
  then have "triangular_loop n c (m1, b1) [Suc i..<n] = Inl IndexError"
    using Suc.hyps(1) [OF _ f1] i by simp
  then show ?case using p i by (simp add: upt_conv_Cons)
qed

lemma hacer_triangular_superior_alta:
  assumes "bien_formada A" and "columnas A < filas A"
  shows "hacer_triangular_superior A = Inl IndexError"
proof -
  have "0 \<le> columnas A" using assms(1) by (simp add: bien_formada_def)
  then have "nat (columnas A) < nat (filas A)" using assms(2) by linarith
  then show ?thesis
    using triangular_loop_alta [OF bien_formada_forma [OF assms(1)], of 0 False]
    by (simp add: hacer_triangular_superior_def)
qed

section \<open>Parity of the row interchanges\<close>

lemma paso_traza_borrar:
  "sin_traza (paso_traza n c (m, b, tr) i) = paso_triangular n c (m, b) i"
  by (simp add: sin_traza_def split: sum.splits)

lemma paso_traza_paridad:
  assumes "paso_traza n c (m, b, tr) i = Inr (m', b', tr')"
    and "b \<longleftrightarrow> odd (length tr)" and "\<forall>p \<in> set tr. fst p \<noteq> snd p"
  shows "(b' \<longleftrightarrow> odd (length tr')) \<and> (\<forall>p \<in> set tr'. fst p \<noteq> snd p)"
  using assms by (auto split: sum.splits if_splits) force+

lemma traza_loop_borrar:
  "sin_traza (traza_loop n c (m, b, tr) is) = triangular_loop n c (m, b) is"
proof (induction "is" arbitrary: m b tr)
  case Nil
  show ?case by (simp add: sin_traza_def)
next
  case (Cons i "is")
  show ?case
  proof (cases "paso_traza n c (m, b, tr) i")
    case (Inl e)
    then have "paso_triangular n c (m, b) i = Inl e"
      using paso_traza_borrar [of n c m b tr i] by (simp add: sin_traza_def)
    then show ?thesis using Inl by (simp add: sin_traza_def)
  next
    case (Inr s)
    obtain m1 b1 tr1 where s: "s = (m1, b1, tr1)" by (cases s)
    have "paso_triangular n c (m, b) i = Inr (m1, b1)"
      using paso_traza_borrar [of n c m b tr i] Inr s by (simp add: sin_traza_def)
    then show ?thesis using Inr s Cons.IH [of m1 b1 tr1] by simp
  qed
qed

lemma traza_loop_paridad:
  assumes "traza_loop n c (m, b, tr) is = Inr (m', b', tr')"
    and "b \<longleftrightarrow> odd (length tr)" and "\<forall>p \<in> set tr. fst p \<noteq> snd p"
  shows "(b' \<longleftrightarrow> odd (length tr')) \<and> (\<forall>p \<in> set tr'. fst p \<noteq> snd p)"
  using assms
proof (induction "is" arbitrary: m b tr)
  case Nil
  then show ?case by auto
next
  case (Cons i "is")
  from Cons.prems(1) obtain m1 b1 tr1
    where p: "paso_traza n c (m, b, tr) i = Inr (m1, b1, tr1)"
      and l: "traza_loop n c (m1, b1, tr1) is = Inr (m', b', tr')"
    by (auto split: sum.splits)
  have "(b1 \<longleftrightarrow> odd (length tr1)) \<and> (\<forall>p \<in> set tr1. fst p \<noteq> snd p)"
    by (rule paso_traza_paridad [OF p Cons.prems(2,3)])
  then show ?case using Cons.IH [OF l] by blast
qed

text \<open>
  C5. The boolean returned by \<open>hacer_triangular_superior\<close> is true iff the algorithm
  performed an odd number of row interchanges: the loop with its interchanges recorded
  computes the same matrix and boolean, the boolean is the parity of the number of
  recorded interchanges, and each recorded interchange exchanges two different rows.
  For \<open>A = [[1, 2], [3, 4]]\<close> the one interchange is of rows 0 and 1, the boolean is true,
  and the diagonal product of the returned matrix times \<open>-1\<close> is the determinant \<open>-2\<close>.
\<close>

theorem intercambio_paridad:
  "sin_traza (hacer_triangular_superior_traza A) = hacer_triangular_superior A
   \<and> (\<forall>M b tr. hacer_triangular_superior_traza A = Inr (M, b, tr)
         \<longrightarrow> (b \<longleftrightarrow> odd (length tr)) \<and> (\<forall>p \<in> set tr. fst p \<noteq> snd p))
   \<and> hacer_triangular_superior_traza mat_ejemplo =
        Inr (\<lparr>aumentada = False, filas = 2, columnas = 2, valores = [[3, 4], [0, 2 / 3]]\<rparr>,
             True, [(0, 1)])
   \<and> producto_diagonal [[3, 4], [0, 2 / 3]] * (- 1) = det2 (valores mat_ejemplo)
   \<and> det2 (valores mat_ejemplo) = - 2"
proof -
  let ?n = "nat (filas A)" and ?c = "nat (columnas A)"
  have a: "sin_traza (hacer_triangular_superior_traza A) = hacer_triangular_superior A"
    using traza_loop_borrar [of ?n ?c "valores A" False "[]" "[0..<?n]"]
    by (auto simp: sin_traza_def hacer_triangular_superior_traza_def
        hacer_triangular_superior_def split: sum.splits)
  have b: "(b \<longleftrightarrow> odd (length tr)) \<and> (\<forall>p \<in> set tr. fst p \<noteq> snd p)"
    if "hacer_triangular_superior_traza A = Inr (M, b, tr)" for M b tr
  proof -
    from that obtain m where "traza_loop ?n ?c (valores A, False, []) [0..<?n] = Inr (m, b, tr)"
      by (auto simp: hacer_triangular_superior_traza_def split: sum.splits)
    then show ?thesis using traza_loop_paridad [of ?n ?c "valores A" False "[]"] by simp
  qed
  have c: "hacer_triangular_superior_traza mat_ejemplo =
        Inr (\<lparr>aumentada = False, filas = 2, columnas = 2, valores = [[3, 4], [0, 2 / 3]]\<rparr>,
             True, [(0, 1)])"
    by (simp add: mat_ejemplo_def hacer_triangular_superior_traza_def max_fila_def elem_def
        py_index_def intercambiar_filas_def py_setitem_def asignar_def upt_rec)
  have d: "producto_diagonal [[3, 4], [0, 2 / 3]] * (- 1) = det2 (valores mat_ejemplo)"
    "det2 (valores mat_ejemplo) = - 2"
    by (simp_all add: producto_diagonal_def det2_def mat_ejemplo_def upt_rec)
  show ?thesis using a b c d by blast
qed

theorem intercambio_paridad_witness:
  "hacer_triangular_superior_traza mat_ejemplo =
        Inr (\<lparr>aumentada = False, filas = 2, columnas = 2, valores = [[3, 4], [0, 2 / 3]]\<rparr>,
             True, [(0, 1)])
   \<and> (True \<longleftrightarrow> odd (length [(0 :: nat, 1 :: nat)]))
   \<and> hacer_triangular_superior mat_ejemplo =
        Inr (\<lparr>aumentada = False, filas = 2, columnas = 2, valores = [[3, 4], [0, 2 / 3]]\<rparr>, True)"
proof -
  have "hacer_triangular_superior_traza mat_ejemplo =
        Inr (\<lparr>aumentada = False, filas = 2, columnas = 2, valores = [[3, 4], [0, 2 / 3]]\<rparr>,
             True, [(0, 1)])"
    and "sin_traza (hacer_triangular_superior_traza mat_ejemplo)
           = hacer_triangular_superior mat_ejemplo"
    using intercambio_paridad [of mat_ejemplo] by blast+
  then show ?thesis by (simp add: sin_traza_def)
qed

end
